theory Spec2Isabelle
  imports Complex_Main
begin

section \<open>NumPy double-precision values\<close>

text \<open>
  The notebook computes with NumPy \<^verbatim>\<open>float64\<close> values (the densities come from
  \<^verbatim>\<open>np.nan_to_num\<close> and \<^verbatim>\<open>scipy.stats\<close>, warnings are filtered, so division by
  zero yields an infinity or a NaN and never raises). A value is a finite real, the
  negative zero, one of the two infinities, or NaN. \<open>Fin 0\<close> is the positive zero.
  The special values follow IEEE 754. A finite result of an operation overflows to an
  infinity and underflows to a zero as in float64; between the two thresholds it is the
  exact real: rounding to 53 bits is outside this model.
\<close>

datatype npfloat = Fin real | NZero | PInf | NInf | NaN

fun is_nan :: "npfloat \<Rightarrow> bool" where
  "is_nan NaN = True"
| "is_nan _ = False"

fun is_inf :: "npfloat \<Rightarrow> bool" where
  "is_inf PInf = True"
| "is_inf NInf = True"
| "is_inf _ = False"

fun is_zero :: "npfloat \<Rightarrow> bool" where
  "is_zero (Fin r) = (r = 0)"
| "is_zero NZero = True"
| "is_zero _ = False"

fun signbit :: "npfloat \<Rightarrow> bool" where
  "signbit (Fin r) = (r < 0)"
| "signbit NZero = True"
| "signbit NInf = True"
| "signbit _ = False"

fun val :: "npfloat \<Rightarrow> real" where
  "val (Fin r) = r"
| "val _ = 0"

definition signed_zero :: "bool \<Rightarrow> npfloat" where
  "signed_zero s = (if s then NZero else Fin 0)"

definition signed_inf :: "bool \<Rightarrow> npfloat" where
  "signed_inf s = (if s then NInf else PInf)"

text \<open>
  Delivering the exact result \<open>r\<close> of an operation on finite operands (round to nearest,
  ties to even): a magnitude of at least \<open>(2 - 2\<^sup>-\<^sup>5\<^sup>3) * 2\<^sup>1\<^sup>0\<^sup>2\<^sup>3\<close> becomes an infinity, a
  nonzero magnitude of at most \<open>2\<^sup>-\<^sup>1\<^sup>0\<^sup>7\<^sup>5\<close> (half the smallest subnormal) becomes a zero, each
  with the sign of \<open>r\<close>.
\<close>

definition overflow_threshold :: real where
  "overflow_threshold = (2 - 1 / 2 ^ 53) * 2 ^ 1023"

definition underflow_threshold :: real where
  "underflow_threshold = 1 / 2 ^ 1075"

definition finite_result :: "real \<Rightarrow> npfloat" where
  "finite_result r =
     (if overflow_threshold \<le> \<bar>r\<bar> then signed_inf (r < 0)
      else if r \<noteq> 0 \<and> \<bar>r\<bar> \<le> underflow_threshold then signed_zero (r < 0)
      else Fin r)"

text \<open>The operator \<^verbatim>\<open>*\<close> on float64.\<close>

definition np_mul :: "npfloat \<Rightarrow> npfloat \<Rightarrow> npfloat" where
  "np_mul a b =
     (if is_nan a \<or> is_nan b then NaN
      else if (is_inf a \<and> is_zero b) \<or> (is_zero a \<and> is_inf b) then NaN
      else if is_inf a \<or> is_inf b then signed_inf (signbit a \<noteq> signbit b)
      else if is_zero a \<or> is_zero b then signed_zero (signbit a \<noteq> signbit b)
      else finite_result (val a * val b))"

text \<open>The operator \<^verbatim>\<open>/\<close> on float64: \<open>0/0\<close> and \<open>inf/inf\<close> are NaN, any other
  division by a zero is an infinity with the sign of the operands.\<close>

definition np_div :: "npfloat \<Rightarrow> npfloat \<Rightarrow> npfloat" where
  "np_div a b =
     (if is_nan a \<or> is_nan b then NaN
      else if (is_zero a \<and> is_zero b) \<or> (is_inf a \<and> is_inf b) then NaN
      else if is_inf a \<or> is_zero b then signed_inf (signbit a \<noteq> signbit b)
      else if is_zero a \<or> is_inf b then signed_zero (signbit a \<noteq> signbit b)
      else finite_result (val a / val b))"

text \<open>The operator \<^verbatim>\<open>+\<close> on float64 (an exact zero sum of finite values is the
  positive zero unless both operands are the negative zero).\<close>

definition np_add :: "npfloat \<Rightarrow> npfloat \<Rightarrow> npfloat" where
  "np_add a b =
     (if is_nan a \<or> is_nan b then NaN
      else if is_inf a \<and> is_inf b then (if a = b then a else NaN)
      else if is_inf a then a
      else if is_inf b then b
      else if a = NZero \<and> b = NZero then NZero
      else finite_result (val a + val b))"

fun np_neg :: "npfloat \<Rightarrow> npfloat" where
  "np_neg (Fin r) = (if r = 0 then NZero else Fin (- r))"
| "np_neg NZero = Fin 0"
| "np_neg PInf = NInf"
| "np_neg NInf = PInf"
| "np_neg NaN = NaN"

definition np_sub :: "npfloat \<Rightarrow> npfloat \<Rightarrow> npfloat" where
  "np_sub a b = np_add a (np_neg b)"

text \<open>The comparison \<^verbatim>\<open>a < b\<close>: false whenever an operand is NaN; the two zeros
  compare equal.\<close>

definition np_lt :: "npfloat \<Rightarrow> npfloat \<Rightarrow> bool" where
  "np_lt a b =
     (if is_nan a \<or> is_nan b then False
      else if a = NInf then b \<noteq> NInf
      else if b = PInf then a \<noteq> PInf
      else if a = PInf \<or> b = NInf then False
      else val a < val b)"

text \<open>The largest finite float64, \<open>(2 - 2\<^sup>-\<^sup>5\<^sup>2) * 2\<^sup>1\<^sup>0\<^sup>2\<^sup>3\<close>.\<close>

definition float_max :: real where
  "float_max = (2 - 1 / 2 ^ 52) * 2 ^ 1023"

text \<open>\<^verbatim>\<open>np.nan_to_num\<close>: NaN becomes 0, an infinity becomes the finite float of
  largest magnitude with the same sign, every other value is returned as it is.\<close>

fun nan_to_num :: "npfloat \<Rightarrow> npfloat" where
  "nan_to_num NaN = Fin 0"
| "nan_to_num PInf = Fin float_max"
| "nan_to_num NInf = Fin (- float_max)"
| "nan_to_num x = x"

text \<open>Python's builtin \<^verbatim>\<open>min(a, b)\<close> keeps its first argument unless the second
  compares strictly below it.\<close>

definition py_min :: "npfloat \<Rightarrow> npfloat \<Rightarrow> npfloat" where
  "py_min a b = (if np_lt b a then b else a)"

text \<open>\<^verbatim>\<open>np.zeros(N)\<close>, \<^verbatim>\<open>np.sum\<close> (the reduction starts from the identity 0) and
  \<^verbatim>\<open>np.mean\<close> (the sum divided by the number of elements, hence \<open>0/0\<close> on an empty
  array).\<close>

definition np_zeros :: "nat \<Rightarrow> npfloat list" where
  "np_zeros n = replicate n (Fin 0)"

definition np_sum :: "npfloat list \<Rightarrow> npfloat" where
  "np_sum xs = foldl np_add (Fin 0) xs"

definition np_mean :: "npfloat list \<Rightarrow> npfloat" where
  "np_mean xs = np_div (np_sum xs) (Fin (real (length xs)))"

section \<open>The unnormalised Gamma density\<close>

text \<open>
  \<^verbatim>\<open>
  def GammaUnnorm(x, a=1.99, b=1):
      return np.nan_to_num((b**a) * (x**(a-1)) * np.exp(-b*x))
  \<close>
  The power and the exponential are library operations and are parameters of the model:
  \<open>py_pow\<close> is Python's \<^verbatim>\<open>**\<close> on the scalars \<open>b\<close> and \<open>a\<close> (it can raise, for
  instance \<^verbatim>\<open>ZeroDivisionError\<close> on a zero base with a negative exponent), \<open>np_power\<close>
  is \<^verbatim>\<open>**\<close> on float64 values and \<open>np_exp\<close> is \<^verbatim>\<open>np.exp\<close>; the last two never raise.
\<close>

datatype error = ValueError | ZeroDivisionError | OverflowError | TypeError

record numlib =
  py_pow :: "npfloat \<Rightarrow> npfloat \<Rightarrow> error + npfloat"
  np_power :: "npfloat \<Rightarrow> npfloat \<Rightarrow> npfloat"
  np_exp :: "npfloat \<Rightarrow> npfloat"

text \<open>The argument of \<^verbatim>\<open>np.nan_to_num\<close> at one point \<open>x\<close>, with \<open>c\<close> the value of
  \<^verbatim>\<open>b**a\<close>.\<close>

definition GammaUnnorm_expr :: "numlib \<Rightarrow> npfloat \<Rightarrow> npfloat \<Rightarrow> npfloat \<Rightarrow> npfloat \<Rightarrow> npfloat" where
  "GammaUnnorm_expr L c x a b =
     np_mul (np_mul c (np_power L x (np_sub a (Fin 1)))) (np_exp L (np_mul (np_neg b) x))"

text \<open>\<open>GammaUnnorm\<close> at a scalar, and at an array (the operations broadcast over the
  elements, \<^verbatim>\<open>b**a\<close> is evaluated once and first).\<close>

definition GammaUnnorm :: "numlib \<Rightarrow> npfloat \<Rightarrow> npfloat \<Rightarrow> npfloat \<Rightarrow> error + npfloat" where
  "GammaUnnorm L x a b =
     (case py_pow L b a of
        Inl e \<Rightarrow> Inl e
      | Inr c \<Rightarrow> Inr (nan_to_num (GammaUnnorm_expr L c x a b)))"

definition GammaUnnorm_array ::
  "numlib \<Rightarrow> npfloat list \<Rightarrow> npfloat \<Rightarrow> npfloat \<Rightarrow> error + npfloat list" where
  "GammaUnnorm_array L xs a b =
     (case py_pow L b a of
        Inl e \<Rightarrow> Inl e
      | Inr c \<Rightarrow> Inr (map (\<lambda>x. nan_to_num (GammaUnnorm_expr L c x a b)) xs))"

section \<open>Rejection sampling and importance sampling\<close>

text \<open>
  A frozen \<^verbatim>\<open>scipy.stats\<close> distribution: \<open>rvs\<close> draws an array of the requested size
  from the process-wide generator, \<open>pdf\<close> is the density at a point.
\<close>

record 'g rv_frozen =
  rvs :: "nat \<Rightarrow> 'g \<Rightarrow> npfloat list \<times> 'g"
  pdf :: "npfloat \<Rightarrow> npfloat"

text \<open>\<^verbatim>\<open>np.where(t == True)[0]\<close>: the indices at which \<open>t\<close> holds, in increasing
  order; and indexing an array with an index array.\<close>

definition np_where :: "bool list \<Rightarrow> nat list" where
  "np_where t = filter (\<lambda>i. (t ! i) = True) [0..<length t]"

definition take_idx :: "'a list \<Rightarrow> nat list \<Rightarrow> 'a list" where
  "take_idx x ic = map (\<lambda>i. x ! i) ic"

text \<open>
  \<^verbatim>\<open>
  def rejSamplingDemo(a,b, qpdf, k, N=10000):
      x = qpdf.rvs(size=N)
      u = random.uniform(0,1,N)
      t = u < GammaUnnorm(x, a=a, b=b)/(k*qpdf.pdf(x))
      ic = np.where(t == True)[0] #inside indices
      estmean = np.mean(x[ic])
      return estmean, x[ic],
  \<close>
  \<open>uniform_size\<close> stands for \<^verbatim>\<open>random.uniform(0,1,N)\<close>. Both draws return arrays of
  \<open>N\<close> elements, and the elementwise operations pair the arrays up index by index.
\<close>

definition rejSamplingDemo ::
  "numlib \<Rightarrow> (nat \<Rightarrow> 'g \<Rightarrow> real list \<times> 'g) \<Rightarrow> npfloat \<Rightarrow> npfloat \<Rightarrow> 'g rv_frozen \<Rightarrow>
   npfloat \<Rightarrow> nat \<Rightarrow> 'g \<Rightarrow> error + ((npfloat \<times> npfloat list) \<times> 'g)" where
  "rejSamplingDemo L uniform_size a b qpdf k N g =
     (case rvs qpdf N g of (x, g1) \<Rightarrow>
        (case uniform_size N g1 of (u, g2) \<Rightarrow>
           (case GammaUnnorm_array L x a b of
              Inl e \<Rightarrow> Inl e
            | Inr ph \<Rightarrow>
                (let t = map2 (\<lambda>ui ri. np_lt (Fin ui) ri) u
                           (map2 np_div ph (map (\<lambda>xi. np_mul k (pdf qpdf xi)) x));
                     ic = np_where t;
                     estmean = np_mean (take_idx x ic)
                 in Inr ((estmean, take_idx x ic), g2)))))"


section \<open>The Metropolis-Hastings sampler\<close>

text \<open>
  \<^verbatim>\<open>
  def MCMCDemo(x, phat, qpdf, qsample, N, T=100):
      xs = np.zeros(N)
      for i in range(N):
          for t in range(T): # record after T samples
              u = np.random.uniform(0,1)
              xc = qsample(x)
              if u < min(1, np.nan_to_num((phat(xc)*qpdf(x,xc)) / (phat(x)*qpdf(xc,x)))):
                  x = xc
          xs[i] = x
      estmean = np.mean(xs)
      return estmean, xs
  \<close>
  The process-wide random generator is an explicit state \<open>'g\<close>: \<open>uniform\<close> stands for
  \<^verbatim>\<open>np.random.uniform(0,1)\<close> and returns the draw with the advanced generator, and the
  caller's \<open>qsample\<close> takes and returns the generator as well. \<open>phat\<close> and \<open>qpdf\<close> are
  the caller's pure density functions.
\<close>

text \<open>The argument of \<^verbatim>\<open>min(1, \<dots>)\<close> in the acceptance test.\<close>

definition MCMCDemo_ratio ::
  "(npfloat \<Rightarrow> npfloat) \<Rightarrow> (npfloat \<Rightarrow> npfloat \<Rightarrow> npfloat) \<Rightarrow> npfloat \<Rightarrow> npfloat \<Rightarrow> npfloat" where
  "MCMCDemo_ratio phat qpdf x xc =
     nan_to_num (np_div (np_mul (phat xc) (qpdf x xc)) (np_mul (phat x) (qpdf xc x)))"

text \<open>The condition of the \<^verbatim>\<open>if\<close>.\<close>

definition MCMCDemo_accept ::
  "(npfloat \<Rightarrow> npfloat) \<Rightarrow> (npfloat \<Rightarrow> npfloat \<Rightarrow> npfloat) \<Rightarrow> real \<Rightarrow> npfloat \<Rightarrow> npfloat \<Rightarrow> bool" where
  "MCMCDemo_accept phat qpdf u x xc =
     np_lt (Fin u) (py_min (Fin 1) (MCMCDemo_ratio phat qpdf x xc))"

text \<open>One pass through the body of the inner loop.\<close>

definition MCMCDemo_step ::
  "('g \<Rightarrow> real \<times> 'g) \<Rightarrow> (npfloat \<Rightarrow> npfloat) \<Rightarrow> (npfloat \<Rightarrow> npfloat \<Rightarrow> npfloat) \<Rightarrow>
   (npfloat \<Rightarrow> 'g \<Rightarrow> npfloat \<times> 'g) \<Rightarrow> npfloat \<times> 'g \<Rightarrow> npfloat \<times> 'g" where
  "MCMCDemo_step uniform phat qpdf qsample s =
     (case s of (x, g) \<Rightarrow>
        (case uniform g of (u, g1) \<Rightarrow>
           (case qsample x g1 of (xc, g2) \<Rightarrow>
              (if MCMCDemo_accept phat qpdf u x xc then (xc, g2) else (x, g2)))))"

text \<open>\<^verbatim>\<open>for t in range(T)\<close>.\<close>

definition MCMCDemo_inner ::
  "('g \<Rightarrow> real \<times> 'g) \<Rightarrow> (npfloat \<Rightarrow> npfloat) \<Rightarrow> (npfloat \<Rightarrow> npfloat \<Rightarrow> npfloat) \<Rightarrow>
   (npfloat \<Rightarrow> 'g \<Rightarrow> npfloat \<times> 'g) \<Rightarrow> nat \<Rightarrow> npfloat \<times> 'g \<Rightarrow> npfloat \<times> 'g" where
  "MCMCDemo_inner uniform phat qpdf qsample T s =
     fold (\<lambda>t. MCMCDemo_step uniform phat qpdf qsample) [0..<T] s"

text \<open>\<^verbatim>\<open>for i in range(N)\<close>: the state is the current \<open>x\<close>, the array \<open>xs\<close> and the
  generator.\<close>

definition MCMCDemo_outer ::
  "('g \<Rightarrow> real \<times> 'g) \<Rightarrow> (npfloat \<Rightarrow> npfloat) \<Rightarrow> (npfloat \<Rightarrow> npfloat \<Rightarrow> npfloat) \<Rightarrow>
   (npfloat \<Rightarrow> 'g \<Rightarrow> npfloat \<times> 'g) \<Rightarrow> nat \<Rightarrow> nat \<Rightarrow>
   npfloat \<times> npfloat list \<times> 'g \<Rightarrow> npfloat \<times> npfloat list \<times> 'g" where
  "MCMCDemo_outer uniform phat qpdf qsample N T s =
     fold (\<lambda>i (x, xs, g).
             (case MCMCDemo_inner uniform phat qpdf qsample T (x, g) of
                (x', g') \<Rightarrow> (x', xs[i := x'], g')))
          [0..<N] s"

text \<open>The whole function. \<open>N\<close> and \<open>T\<close> are Python integers: \<^verbatim>\<open>np.zeros\<close> raises
  \<^verbatim>\<open>ValueError\<close> on a negative \<open>N\<close>, and \<^verbatim>\<open>range\<close> of a negative number is empty.
  The result is the returned pair together with the generator left behind.\<close>

definition MCMCDemo ::
  "('g \<Rightarrow> real \<times> 'g) \<Rightarrow> npfloat \<Rightarrow> (npfloat \<Rightarrow> npfloat) \<Rightarrow> (npfloat \<Rightarrow> npfloat \<Rightarrow> npfloat) \<Rightarrow>
   (npfloat \<Rightarrow> 'g \<Rightarrow> npfloat \<times> 'g) \<Rightarrow> int \<Rightarrow> int \<Rightarrow> 'g \<Rightarrow>
   error + ((npfloat \<times> npfloat list) \<times> 'g)" where
  "MCMCDemo uniform x phat qpdf qsample N T g =
     (if N < 0 then Inl ValueError
      else (case MCMCDemo_outer uniform phat qpdf qsample (nat N) (nat T)
                   (x, np_zeros (nat N), g) of
              (x', xs, g') \<Rightarrow> Inr ((np_mean xs, xs), g')))"

text \<open>
  The notebook's use of the sampler (the same two calls are made for the Gamma target and
  for the mixture target):
  \<^verbatim>\<open>
  x = 0.0 # the initial x
  N = 1000 # number of samples
  Nburnin = 1000
  T = 50
  # start with burnin
  MCMCDemo(0, phat, qpdf, qsample, N=Nburnin, T=1)
  # sample
  estmean, xs = MCMCDemo(x, phat, qpdf, qsample, N=N, T=T)
  \<close>
  The result of the first call is dropped; only the generator it advanced is seen by the
  second call. The constants of the cell are parameters here.
\<close>

definition burnin_then_sample ::
  "('g \<Rightarrow> real \<times> 'g) \<Rightarrow> (npfloat \<Rightarrow> npfloat) \<Rightarrow> (npfloat \<Rightarrow> npfloat \<Rightarrow> npfloat) \<Rightarrow>
   (npfloat \<Rightarrow> 'g \<Rightarrow> npfloat \<times> 'g) \<Rightarrow> npfloat \<Rightarrow> int \<Rightarrow> int \<Rightarrow> int \<Rightarrow> 'g \<Rightarrow>
   error + ((npfloat \<times> npfloat list) \<times> 'g)" where
  "burnin_then_sample uniform phat qpdf qsample x N Nburnin T g =
     (case MCMCDemo uniform (Fin 0) phat qpdf qsample Nburnin 1 g of
        Inl e \<Rightarrow> Inl e
      | Inr (burnin, g1) \<Rightarrow> MCMCDemo uniform x phat qpdf qsample N T g1)"

section \<open>The sampler as the specification words it\<close>

text \<open>
  The acceptance ratio with a NaN read as 0 (infinities are kept), the minimum of two
  extended reals, one step (a uniform draw, a candidate, a move exactly when
  \<open>u < min(1, r)\<close>), \<open>T\<close> steps per output slot with the state recorded after them, and the
  recorded sequence returned with its arithmetic mean. The specification fixes no order
  between the two draws of a step; the source's order is taken.
\<close>

definition spec_ratio ::
  "(npfloat \<Rightarrow> npfloat) \<Rightarrow> (npfloat \<Rightarrow> npfloat \<Rightarrow> npfloat) \<Rightarrow> npfloat \<Rightarrow> npfloat \<Rightarrow> npfloat" where
  "spec_ratio phat qpdf cur cand =
     (let r = np_div (np_mul (phat cand) (qpdf cur cand)) (np_mul (phat cur) (qpdf cand cur))
      in if is_nan r then Fin 0 else r)"

definition ext_min :: "npfloat \<Rightarrow> npfloat \<Rightarrow> npfloat" where
  "ext_min a b = (if np_lt a b then a else b)"

definition spec_step ::
  "('g \<Rightarrow> real \<times> 'g) \<Rightarrow> (npfloat \<Rightarrow> npfloat) \<Rightarrow> (npfloat \<Rightarrow> npfloat \<Rightarrow> npfloat) \<Rightarrow>
   (npfloat \<Rightarrow> 'g \<Rightarrow> npfloat \<times> 'g) \<Rightarrow> npfloat \<times> 'g \<Rightarrow> npfloat \<times> 'g" where
  "spec_step uniform phat qpdf qsample s =
     (let cur = fst s;
          (u, g1) = uniform (snd s);
          (cand, g2) = qsample cur g1
      in (if np_lt (Fin u) (ext_min (Fin 1) (spec_ratio phat qpdf cur cand)) then cand else cur, g2))"

fun spec_slots ::
  "('g \<Rightarrow> real \<times> 'g) \<Rightarrow> (npfloat \<Rightarrow> npfloat) \<Rightarrow> (npfloat \<Rightarrow> npfloat \<Rightarrow> npfloat) \<Rightarrow>
   (npfloat \<Rightarrow> 'g \<Rightarrow> npfloat \<times> 'g) \<Rightarrow> nat \<Rightarrow> nat \<Rightarrow> npfloat \<times> 'g \<Rightarrow> npfloat list \<times> npfloat \<times> 'g" where
  "spec_slots uniform phat qpdf qsample 0 T s = ([], s)"
| "spec_slots uniform phat qpdf qsample (Suc n) T s =
     (let (recorded, s1) = spec_slots uniform phat qpdf qsample n T s;
          s2 = ((spec_step uniform phat qpdf qsample) ^^ T) s1
      in (recorded @ [fst s2], s2))"

definition spec_MH ::
  "('g \<Rightarrow> real \<times> 'g) \<Rightarrow> npfloat \<Rightarrow> (npfloat \<Rightarrow> npfloat) \<Rightarrow> (npfloat \<Rightarrow> npfloat \<Rightarrow> npfloat) \<Rightarrow>
   (npfloat \<Rightarrow> 'g \<Rightarrow> npfloat \<times> 'g) \<Rightarrow> nat \<Rightarrow> nat \<Rightarrow> 'g \<Rightarrow> (npfloat list \<times> npfloat) \<times> 'g" where
  "spec_MH uniform x0 phat qpdf qsample N T g =
     (let (recorded, s) = spec_slots uniform phat qpdf qsample N T (x0, g)
      in ((recorded, np_div (np_sum recorded) (Fin (real (length recorded)))), snd s))"

text \<open>
  The rejection sampler's acceptance test for one sample \<open>xi\<close> with its uniform draw
  \<open>ui\<close>, and the importance sampler's raw weight of one sample, as the specification
  words them: the unnormalised target density at the sample over \<open>k\<close> times the proposal
  density, respectively over the proposal density.
\<close>

definition spec_rej_accept ::
  "numlib \<Rightarrow> npfloat \<Rightarrow> npfloat \<Rightarrow> 'g rv_frozen \<Rightarrow> npfloat \<Rightarrow> npfloat \<Rightarrow> real \<Rightarrow> bool" where
  "spec_rej_accept L a b qpdf k xi ui =
     (case GammaUnnorm L xi a b of
        Inl e \<Rightarrow> False
      | Inr d \<Rightarrow> np_lt (Fin ui) (np_div d (np_mul k (pdf qpdf xi))))"


section \<open>Concrete inputs\<close>

text \<open>
  A generator that counts its draws; uniform draws that are \<open>1/4\<close> or \<open>3/4\<close>; a
  density that is 1 on the positive numbers and 0 elsewhere; a constant proposal
  density; a random walk with steps \<open>+1\<close> and \<open>-1\<close>.
\<close>

definition ex_uniform :: "nat \<Rightarrow> real \<times> nat" where
  "ex_uniform g = (if g mod 4 = 0 then 1 / 4 else 3 / 4, g + 1)"

definition ex_phat :: "npfloat \<Rightarrow> npfloat" where
  "ex_phat x = (if np_lt (Fin 0) x then Fin 1 else Fin 0)"

definition ex_qpdf :: "npfloat \<Rightarrow> npfloat \<Rightarrow> npfloat" where
  "ex_qpdf x mu = Fin 1"

definition ex_qsample :: "npfloat \<Rightarrow> nat \<Rightarrow> npfloat \<times> nat" where
  "ex_qsample mu g = (np_add mu (Fin (if g mod 3 = 0 then 1 else - 1)), g + 1)"

text \<open>
  For \<open>a = 0\<close> and \<open>b = 0\<close> the unnormalised Gamma density is \<open>1/x\<close>: \<open>0**0\<close> is 1, the
  exponent of \<open>x\<close> is \<open>-1\<close> and the exponential is taken at a zero or at NaN. The
  library below is exact on these arguments, the only ones the examples evaluate.
\<close>

definition ex_lib :: numlib where
  "ex_lib = \<lparr> py_pow = (\<lambda>b a. Inr (Fin 1)),
              np_power = (\<lambda>x e. np_div (Fin 1) x),
              np_exp = (\<lambda>z. if is_nan z then NaN else Fin 1) \<rparr>"

definition ex_dist :: "nat rv_frozen" where
  "ex_dist = \<lparr> rvs = (\<lambda>n g. (map (\<lambda>i. Fin (2 ^ i)) [0..<n], g + n)),
               pdf = (\<lambda>x. Fin 1) \<rparr>"




definition ex_uniform_size :: "nat \<Rightarrow> nat \<Rightarrow> real list \<times> nat" where
  "ex_uniform_size n g = (map (\<lambda>i. if even i then 1 / 4 else 3 / 4) [0..<n], g + n)"

section \<open>Basic facts\<close>

lemma MCMCDemo_outer_length:
  "length (fst (snd (MCMCDemo_outer uniform phat qpdf qsample N T (x, xs, g)))) = length xs"
proof (induction N arbitrary: x xs g)
  case 0
  show ?case by (simp add: MCMCDemo_outer_def)
next
  case (Suc N)
  obtain x1 xs1 g1 where r: "MCMCDemo_outer uniform phat qpdf qsample N T (x, xs, g) = (x1, xs1, g1)"
    by (metis prod_cases3)
  have l: "length xs1 = length xs"
    using Suc.IH [of x xs g] r by simp
  show ?case
    using r l
    by (simp add: MCMCDemo_outer_def split: prod.splits)
qed

lemma class_excl [simp]:
  "is_zero a \<Longrightarrow> \<not> is_inf a" "is_zero a \<Longrightarrow> \<not> is_nan a" "is_inf a \<Longrightarrow> \<not> is_nan a"
  by (cases a; simp)+

lemma thresholds: "underflow_threshold < 1 / 16" "16 < overflow_threshold" "0 < underflow_threshold"
  by (simp_all add: underflow_threshold_def overflow_threshold_def)

lemma finite_result_moderate [simp]:
  "1 / 16 \<le> \<bar>r\<bar> \<Longrightarrow> \<bar>r\<bar> \<le> 16 \<Longrightarrow> finite_result r = Fin r"
  using thresholds by (simp add: finite_result_def)

lemma finite_result_0 [simp]: "finite_result 0 = Fin 0"
  using thresholds by (simp add: finite_result_def overflow_threshold_def)

lemma finite_result_pos: "np_lt (Fin 0) (finite_result r) \<Longrightarrow> 0 < r"
  using thresholds
  by (auto simp: finite_result_def signed_inf_def signed_zero_def np_lt_def split: if_splits)

lemma finite_result_of_pos:
  "0 < r \<Longrightarrow> finite_result r = Fin 0 \<or> np_lt (Fin 0) (finite_result r)"
  by (auto simp: finite_result_def signed_inf_def signed_zero_def np_lt_def)

lemma float_max_gt_1: "1 < float_max"
  by (simp add: float_max_def)

lemma float_max_not_lt_1 [simp]: "\<not> float_max < 1" "\<not> float_max \<le> 0" "\<not> float_max \<le> 1"
  using float_max_gt_1 by simp_all

lemma nan_to_num_not_nan: "\<not> is_nan (nan_to_num r)"
  by (cases r) simp_all

lemma np_mul_zero_left:
  "is_zero a \<Longrightarrow>
   np_mul a q = (if is_nan q \<or> is_inf q then NaN else signed_zero (signbit a \<noteq> signbit q))"
  by (cases q) (auto simp: np_mul_def)

lemma np_div_degenerate:
  "is_zero n \<or> is_nan n \<Longrightarrow> is_zero d \<or> is_nan d \<Longrightarrow> np_div n d = NaN"
  by (auto simp: np_div_def)

lemma signed_zero_is_zero [simp]: "is_zero (signed_zero s)"
  by (simp add: signed_zero_def)

lemma np_div_by_zero:
  "is_zero d \<Longrightarrow>
   np_div n d = (if is_nan n \<or> is_zero n then NaN else signed_inf (signbit n \<noteq> signbit d))"
  by (auto simp: np_div_def)

lemma pos_class: "np_lt (Fin 0) a \<Longrightarrow> \<not> is_nan a \<and> \<not> is_zero a \<and> \<not> signbit a"
  by (cases a) (auto simp: np_lt_def)

lemma np_mul_pos_sign:
  "np_lt (Fin 0) a \<Longrightarrow> np_lt (Fin 0) b \<Longrightarrow> np_mul a b = Fin 0 \<or> np_lt (Fin 0) (np_mul a b)"
proof (cases a; cases b)
  fix r s
  assume "np_lt (Fin 0) a" "np_lt (Fin 0) b" "a = Fin r" "b = Fin s"
  then have "0 < r * s" "r \<noteq> 0" "s \<noteq> 0"
    by (simp_all add: np_lt_def)
  then show ?thesis
    using finite_result_of_pos [of "r * s"] \<open>a = Fin r\<close> \<open>b = Fin s\<close> by (simp add: np_mul_def)
qed (auto simp: np_lt_def np_mul_def signed_inf_def)

lemma np_div_special:
  "is_zero d \<or> d = NaN \<Longrightarrow> np_div n d = NaN \<or> np_div n d = PInf \<or> np_div n d = NInf"
  by (auto simp: np_div_def signed_inf_def)

lemma accept_test_nan: "0 \<le> u \<Longrightarrow> \<not> np_lt (Fin u) (py_min (Fin 1) (nan_to_num NaN))"
  by (simp add: np_lt_def py_min_def)

lemma accept_test_ninf: "0 \<le> u \<Longrightarrow> \<not> np_lt (Fin u) (py_min (Fin 1) (nan_to_num NInf))"
  using float_max_gt_1 by (auto simp: np_lt_def py_min_def)

lemma accept_test_pinf: "u < 1 \<Longrightarrow> np_lt (Fin u) (py_min (Fin 1) (nan_to_num PInf))"
  by (simp add: np_lt_def py_min_def)

lemma accept_test_pos:
  "0 \<le> u \<Longrightarrow> np_lt (Fin u) (py_min (Fin 1) (nan_to_num r)) \<Longrightarrow> np_lt (Fin 0) r"
  using float_max_gt_1
  by (cases r) (auto simp: np_lt_def py_min_def split: if_splits)

lemma np_div_pos_num:
  "np_lt (Fin 0) (np_div n d) \<Longrightarrow> d = Fin 0 \<or> np_lt (Fin 0) d \<Longrightarrow> np_lt (Fin 0) n"
proof (cases n; cases d)
  fix r s
  assume p: "np_lt (Fin 0) (np_div n d)" and d: "d = Fin 0 \<or> np_lt (Fin 0) d"
    and n: "n = Fin r" and ds: "d = Fin s"
  show ?thesis
  proof (cases "r = 0 \<or> s = 0")
    case True
    then show ?thesis
      using p n ds by (auto simp: np_lt_def np_div_def signed_inf_def signed_zero_def split: if_splits)
  next
    case False
    then have "np_lt (Fin 0) (finite_result (r / s))"
      using p n ds by (simp add: np_div_def)
    then have "0 < r / s"
      by (rule finite_result_pos)
    moreover have "0 < s"
      using d ds False by (simp add: np_lt_def)
    ultimately show ?thesis
      using n by (simp add: np_lt_def zero_less_divide_iff)
  qed
qed (auto simp: np_lt_def np_div_def signed_inf_def signed_zero_def split: if_splits)

lemma np_div_zero_num:
  "is_zero n \<or> is_nan n \<Longrightarrow> \<not> np_lt (Fin 0) (np_div n d)"
  by (cases d) (auto simp: np_lt_def np_div_def signed_zero_def)

lemma np_mul_pos_left: "np_lt (Fin 0) (np_mul a b) \<Longrightarrow> np_lt (Fin 0) b \<Longrightarrow> np_lt (Fin 0) a"
proof (cases a; cases b)
  fix r s
  assume p: "np_lt (Fin 0) (np_mul a b)" and b: "np_lt (Fin 0) b" and a: "a = Fin r" and bs: "b = Fin s"
  show ?thesis
  proof (cases "r = 0")
    case True
    then show ?thesis
      using p a bs by (auto simp: np_lt_def np_mul_def signed_zero_def split: if_splits)
  next
    case False
    have s: "0 < s"
      using b bs by (simp add: np_lt_def)
    then have "np_lt (Fin 0) (finite_result (r * s))"
      using p a bs False by (simp add: np_mul_def)
    then have "0 < r * s"
      by (rule finite_result_pos)
    then show ?thesis
      using s a by (simp add: np_lt_def zero_less_mult_iff)
  qed
qed (auto simp: np_lt_def np_mul_def signed_inf_def signed_zero_def split: if_splits)

lemma MCMCDemo_accept_pos:
  assumes u: "0 \<le> u" and q: "\<forall>a b. np_lt (Fin 0) (qpdf a b)"
    and x: "np_lt (Fin 0) (phat x)" and acc: "MCMCDemo_accept phat qpdf u x xc"
  shows "np_lt (Fin 0) (phat xc)"
proof -
  have "np_lt (Fin 0) (np_div (np_mul (phat xc) (qpdf x xc)) (np_mul (phat x) (qpdf xc x)))"
    using acc u unfolding MCMCDemo_accept_def MCMCDemo_ratio_def by (rule accept_test_pos [rotated])
  moreover have "np_mul (phat x) (qpdf xc x) = Fin 0 \<or> np_lt (Fin 0) (np_mul (phat x) (qpdf xc x))"
    using x q by (simp add: np_mul_pos_sign)
  ultimately have "np_lt (Fin 0) (np_mul (phat xc) (qpdf x xc))"
    by (rule np_div_pos_num)
  then show ?thesis
    using q by (blast intro: np_mul_pos_left)
qed

lemma MCMCDemo_step_pos:
  assumes u: "\<forall>g. 0 \<le> fst (uniform g)" and q: "\<forall>a b. np_lt (Fin 0) (qpdf a b)"
    and x: "np_lt (Fin 0) (phat (fst s))"
  shows "np_lt (Fin 0) (phat (fst (MCMCDemo_step uniform phat qpdf qsample s)))"
proof -
  obtain x0 g where s: "s = (x0, g)" by (cases s)
  obtain u0 g1 where ug: "uniform g = (u0, g1)" by (cases "uniform g")
  obtain xc g2 where qs: "qsample x0 g1 = (xc, g2)" by (cases "qsample x0 g1")
  have u0: "0 \<le> u0" using u [rule_format, of g] ug by simp
  show ?thesis
  proof (cases "MCMCDemo_accept phat qpdf u0 x0 xc")
    case True
    then have "np_lt (Fin 0) (phat xc)"
      using MCMCDemo_accept_pos [OF u0 q _ True] x s by simp
    then show ?thesis
      using True by (simp add: MCMCDemo_step_def s ug qs)
  next
    case False
    then show ?thesis
      using x by (simp add: MCMCDemo_step_def s ug qs)
  qed
qed

lemma MCMCDemo_inner_Suc:
  "MCMCDemo_inner uniform phat qpdf qsample (Suc T) s =
   MCMCDemo_step uniform phat qpdf qsample (MCMCDemo_inner uniform phat qpdf qsample T s)"
  by (simp add: MCMCDemo_inner_def)

lemma MCMCDemo_inner_0: "MCMCDemo_inner uniform phat qpdf qsample 0 s = s"
  by (simp add: MCMCDemo_inner_def)

lemma MCMCDemo_inner_pos:
  assumes u: "\<forall>g. 0 \<le> fst (uniform g)" and q: "\<forall>a b. np_lt (Fin 0) (qpdf a b)"
    and x: "np_lt (Fin 0) (phat (fst s))"
  shows "np_lt (Fin 0) (phat (fst (MCMCDemo_inner uniform phat qpdf qsample T s)))"
proof (induction T)
  case 0
  show ?case using x by (simp add: MCMCDemo_inner_0)
next
  case (Suc T)
  show ?case
    using MCMCDemo_step_pos [of uniform qpdf phat "MCMCDemo_inner uniform phat qpdf qsample T s" qsample]
      u q Suc.IH
    by (simp add: MCMCDemo_inner_Suc)
qed

lemma MCMCDemo_outer_Suc:
  "MCMCDemo_outer uniform phat qpdf qsample (Suc n) T s =
   (case MCMCDemo_outer uniform phat qpdf qsample n T s of
      (x, xs, g) \<Rightarrow>
        (case MCMCDemo_inner uniform phat qpdf qsample T (x, g) of
           (x', g') \<Rightarrow> (x', xs[n := x'], g')))"
  by (simp add: MCMCDemo_outer_def)

lemma MCMCDemo_outer_0: "MCMCDemo_outer uniform phat qpdf qsample 0 T s = s"
  by (simp add: MCMCDemo_outer_def)

lemma MCMCDemo_outer_pos:
  assumes u: "\<forall>g. 0 \<le> fst (uniform g)" and q: "\<forall>a b. np_lt (Fin 0) (qpdf a b)"
    and x: "np_lt (Fin 0) (phat x)"
  shows "n \<le> length zs \<Longrightarrow>
         MCMCDemo_outer uniform phat qpdf qsample n T (x, zs, g) = (x', zs', g') \<Longrightarrow>
         np_lt (Fin 0) (phat x') \<and> length zs' = length zs
         \<and> (\<forall>i<n. np_lt (Fin 0) (phat (zs' ! i)))"
proof (induction n arbitrary: x' zs' g')
  case 0
  then show ?case using x by (simp add: MCMCDemo_outer_0)
next
  case (Suc n)
  obtain x1 zs1 g1 where r: "MCMCDemo_outer uniform phat qpdf qsample n T (x, zs, g) = (x1, zs1, g1)"
    by (metis prod_cases3)
  have ih: "np_lt (Fin 0) (phat x1) \<and> length zs1 = length zs
            \<and> (\<forall>i<n. np_lt (Fin 0) (phat (zs1 ! i)))"
    using Suc.IH [OF _ r] Suc.prems(1) by simp
  obtain x2 g2 where i: "MCMCDemo_inner uniform phat qpdf qsample T (x1, g1) = (x2, g2)"
    by (cases "MCMCDemo_inner uniform phat qpdf qsample T (x1, g1)")
  have p2: "np_lt (Fin 0) (phat x2)"
    using MCMCDemo_inner_pos [OF u q, of phat "(x1, g1)" qsample T] ih i by simp
  have eq: "x' = x2" "zs' = zs1[n := x2]" "g' = g2"
    using Suc.prems(2) r i by (auto simp: MCMCDemo_outer_Suc)
  have "\<forall>i<Suc n. np_lt (Fin 0) (phat (zs1[n := x2] ! i))"
    using ih p2 Suc.prems(1) by (auto simp: nth_list_update less_Suc_eq)
  then show ?case
    using eq p2 ih by simp
qed


lemma MCMCDemo_outer_pos_state:
  assumes u: "\<forall>g. 0 \<le> fst (uniform g)" and q: "\<forall>a b. np_lt (Fin 0) (qpdf a b)"
    and x: "np_lt (Fin 0) (phat x)"
  shows "np_lt (Fin 0) (phat (fst (MCMCDemo_outer uniform phat qpdf qsample n T (x, zs, g))))"
proof (induction n)
  case 0
  show ?case using x by (simp add: MCMCDemo_outer_0)
next
  case (Suc n)
  obtain x1 zs1 g1 where r: "MCMCDemo_outer uniform phat qpdf qsample n T (x, zs, g) = (x1, zs1, g1)"
    by (metis prod_cases3)
  obtain x2 g2 where i: "MCMCDemo_inner uniform phat qpdf qsample T (x1, g1) = (x2, g2)"
    by (cases "MCMCDemo_inner uniform phat qpdf qsample T (x1, g1)")
  have "np_lt (Fin 0) (phat x2)"
    using MCMCDemo_inner_pos [OF u q, of phat "(x1, g1)" qsample T] Suc.IH r i by simp
  then show ?case
    by (simp add: MCMCDemo_outer_Suc r i)
qed

lemma zero_candidate_ratio:
  assumes z: "is_zero (phat xc)"
  shows "is_zero (MCMCDemo_ratio phat qpdf x xc)"
proof -
  have "is_zero (np_mul (phat xc) (qpdf x xc)) \<or> is_nan (np_mul (phat xc) (qpdf x xc))"
    using z by (simp add: np_mul_zero_left)
  then have "is_zero (np_div (np_mul (phat xc) (qpdf x xc)) (np_mul (phat x) (qpdf xc x)))
             \<or> is_nan (np_div (np_mul (phat xc) (qpdf x xc)) (np_mul (phat x) (qpdf xc x)))"
    by (auto simp: np_div_def)
  then show ?thesis
    unfolding MCMCDemo_ratio_def
    by (cases "np_div (np_mul (phat xc) (qpdf x xc)) (np_mul (phat x) (qpdf xc x))") simp_all
qed

lemma zero_candidate_rejected:
  assumes v: "0 \<le> v" and z: "is_zero (phat xc)"
  shows "\<not> MCMCDemo_accept phat qpdf v x xc"
proof
  assume "MCMCDemo_accept phat qpdf v x xc"
  then have p: "np_lt (Fin 0) (np_div (np_mul (phat xc) (qpdf x xc)) (np_mul (phat x) (qpdf xc x)))"
    using v unfolding MCMCDemo_accept_def MCMCDemo_ratio_def by (rule accept_test_pos [rotated])
  have "is_zero (np_mul (phat xc) (qpdf x xc)) \<or> is_nan (np_mul (phat xc) (qpdf x xc))"
    using z by (simp add: np_mul_zero_left)
  then have "\<not> np_lt (Fin 0) (np_div (np_mul (phat xc) (qpdf x xc)) (np_mul (phat x) (qpdf xc x)))"
    by (rule np_div_zero_num)
  then show False using p by simp
qed

text \<open>A run on the concrete inputs: two output slots of one step each.\<close>

lemma ex_step_0: "MCMCDemo_step ex_uniform ex_phat ex_qpdf ex_qsample (Fin 1, 0) = (Fin 1, 2)"
proof -
  have u: "ex_uniform 0 = (1 / 4, 1)"
    by (simp add: ex_uniform_def)
  have q: "ex_qsample (Fin 1) 1 = (Fin 0, 2)"
    by (simp add: ex_qsample_def np_add_def)
  have a: "\<not> MCMCDemo_accept ex_phat ex_qpdf (1 / 4) (Fin 1) (Fin 0)"
    by (simp add: MCMCDemo_accept_def MCMCDemo_ratio_def ex_phat_def ex_qpdf_def
        np_mul_def np_div_def np_lt_def py_min_def signed_zero_def)
  show ?thesis
    by (simp only: MCMCDemo_step_def u q a prod.case if_False)
qed

lemma ex_step_2: "MCMCDemo_step ex_uniform ex_phat ex_qpdf ex_qsample (Fin 1, 2) = (Fin 2, 4)"
proof -
  have u: "ex_uniform 2 = (3 / 4, 3)"
    by (simp add: ex_uniform_def)
  have q: "ex_qsample (Fin 1) 3 = (Fin 2, 4)"
    by (simp add: ex_qsample_def np_add_def)
  have a: "MCMCDemo_accept ex_phat ex_qpdf (3 / 4) (Fin 1) (Fin 2)"
    by (simp add: MCMCDemo_accept_def MCMCDemo_ratio_def ex_phat_def ex_qpdf_def
        np_mul_def np_div_def np_lt_def py_min_def)
  show ?thesis
    by (simp only: MCMCDemo_step_def u q a prod.case if_True)
qed

lemma ex_inner_0:
  "MCMCDemo_inner ex_uniform ex_phat ex_qpdf ex_qsample (Suc 0) (Fin 1, 0) = (Fin 1, 2)"
  by (simp only: MCMCDemo_inner_Suc MCMCDemo_inner_0 ex_step_0)

lemma ex_inner_2:
  "MCMCDemo_inner ex_uniform ex_phat ex_qpdf ex_qsample (Suc 0) (Fin 1, 2) = (Fin 2, 4)"
  by (simp only: MCMCDemo_inner_Suc MCMCDemo_inner_0 ex_step_2)

lemma ex_outer_2:
  "MCMCDemo_outer ex_uniform ex_phat ex_qpdf ex_qsample (Suc (Suc 0)) (Suc 0)
     (Fin 1, [Fin 0, Fin 0], 0) = (Fin 2, [Fin 1, Fin 2], 4)"
  by (simp add: MCMCDemo_outer_Suc MCMCDemo_outer_0 ex_inner_0 ex_inner_2)

lemma ex_mean: "np_mean [Fin 1, Fin 2] = Fin (3 / 2)"
  by (simp add: np_mean_def np_sum_def np_add_def np_div_def)

lemma ex_run:
  "MCMCDemo ex_uniform (Fin 1) ex_phat ex_qpdf ex_qsample 2 1 0 = Inr ((Fin (3 / 2), [Fin 1, Fin 2]), 4)"
proof -
  have n: "nat 2 = Suc (Suc 0)" "nat 1 = Suc 0"
    by simp_all
  have z: "np_zeros (Suc (Suc 0)) = [Fin 0, Fin 0]"
    by (simp add: np_zeros_def)
  have o: "MCMCDemo_outer ex_uniform ex_phat ex_qpdf ex_qsample (nat 2) (nat 1)
             (Fin 1, np_zeros (nat 2), 0) = (Fin 2, [Fin 1, Fin 2], 4)"
    by (simp only: n z ex_outer_2)
  show ?thesis
    unfolding MCMCDemo_def o by (simp add: ex_mean)
qed

lemma accept_test_spec:
  "0 \<le> u \<Longrightarrow>
   np_lt (Fin u) (py_min (Fin 1) (nan_to_num r))
   = np_lt (Fin u) (ext_min (Fin 1) (if is_nan r then Fin 0 else r))"
  using float_max_gt_1
  by (cases r) (auto simp: np_lt_def py_min_def ext_min_def)

lemma MCMCDemo_accept_spec:
  "0 \<le> u \<Longrightarrow>
   MCMCDemo_accept phat qpdf u x xc
   = np_lt (Fin u) (ext_min (Fin 1) (spec_ratio phat qpdf x xc))"
  by (simp add: MCMCDemo_accept_def MCMCDemo_ratio_def spec_ratio_def Let_def accept_test_spec)

lemma MCMCDemo_step_spec:
  assumes u: "\<forall>g. 0 \<le> fst (uniform g)"
  shows "MCMCDemo_step uniform phat qpdf qsample s = spec_step uniform phat qpdf qsample s"
proof -
  obtain x g where s: "s = (x, g)" by (cases s)
  obtain u0 g1 where ug: "uniform g = (u0, g1)" by (cases "uniform g")
  obtain xc g2 where qs: "qsample x g1 = (xc, g2)" by (cases "qsample x g1")
  have "0 \<le> u0" using u [rule_format, of g] ug by simp
  then show ?thesis
    by (simp add: MCMCDemo_step_def spec_step_def s ug qs MCMCDemo_accept_spec)
qed

lemma MCMCDemo_inner_spec:
  assumes u: "\<forall>g. 0 \<le> fst (uniform g)"
  shows "MCMCDemo_inner uniform phat qpdf qsample T s = ((spec_step uniform phat qpdf qsample) ^^ T) s"
  by (induction T) (simp_all add: MCMCDemo_inner_0 MCMCDemo_inner_Suc MCMCDemo_step_spec [OF u])

lemma spec_slots_length: "length (fst (spec_slots uniform phat qpdf qsample n T s)) = n"
  by (induction n) (auto simp: Let_def split: prod.splits)

lemma MCMCDemo_outer_spec:
  assumes u: "\<forall>g. 0 \<le> fst (uniform g)"
  shows "n \<le> length zs \<Longrightarrow>
         MCMCDemo_outer uniform phat qpdf qsample n T (x, zs, g)
         = (case spec_slots uniform phat qpdf qsample n T (x, g) of
              (recorded, s) \<Rightarrow> (fst s, recorded @ drop n zs, snd s))"
proof (induction n)
  case 0
  show ?case by (simp add: MCMCDemo_outer_0)
next
  case (Suc n)
  obtain recorded s1 where sl: "spec_slots uniform phat qpdf qsample n T (x, g) = (recorded, s1)"
    by (cases "spec_slots uniform phat qpdf qsample n T (x, g)")
  have len: "length recorded = n"
    using spec_slots_length [of uniform phat qpdf qsample n T "(x, g)"] sl by simp
  have ih: "MCMCDemo_outer uniform phat qpdf qsample n T (x, zs, g)
            = (fst s1, recorded @ drop n zs, snd s1)"
    using Suc sl by simp
  obtain x2 g2 where s2: "((spec_step uniform phat qpdf qsample) ^^ T) s1 = (x2, g2)"
    by (cases "((spec_step uniform phat qpdf qsample) ^^ T) s1")
  have inner: "MCMCDemo_inner uniform phat qpdf qsample T s1 = (x2, g2)"
    using MCMCDemo_inner_spec [OF u, of phat qpdf qsample T s1] s2 by simp
  have upd: "(recorded @ drop n zs)[n := x2] = (recorded @ [x2]) @ drop (Suc n) zs"
  proof -
    have "drop n zs = zs ! n # drop (Suc n) zs"
      using Suc.prems by (simp add: Cons_nth_drop_Suc)
    then show ?thesis
      using len by (simp add: list_update_append)
  qed
  show ?case
    by (simp add: MCMCDemo_outer_Suc ih inner upd sl s2 Let_def del: append_assoc append.simps)
qed

lemma ex_step_burnin: "MCMCDemo_step ex_uniform ex_phat ex_qpdf ex_qsample (Fin 0, 0) = (Fin 0, 2)"
proof -
  have u: "ex_uniform 0 = (1 / 4, 1)"
    by (simp add: ex_uniform_def)
  have q: "ex_qsample (Fin 0) 1 = (Fin (- 1), 2)"
    by (simp add: ex_qsample_def np_add_def)
  have a: "\<not> MCMCDemo_accept ex_phat ex_qpdf (1 / 4) (Fin 0) (Fin (- 1))"
    by (simp add: MCMCDemo_accept_def MCMCDemo_ratio_def ex_phat_def ex_qpdf_def
        np_mul_def np_div_def np_lt_def py_min_def signed_zero_def)
  show ?thesis
    by (simp only: MCMCDemo_step_def u q a prod.case if_False)
qed

lemma ex_burnin:
  "MCMCDemo_outer ex_uniform ex_phat ex_qpdf ex_qsample (nat 1) (nat 1) (Fin 0, np_zeros (nat 1), 0)
   = (Fin 0, [Fin 0], 2)"
proof -
  have n: "nat 1 = Suc 0"
    by simp
  have z: "np_zeros (Suc 0) = [Fin 0]"
    by (simp add: np_zeros_def)
  have i: "MCMCDemo_inner ex_uniform ex_phat ex_qpdf ex_qsample (Suc 0) (Fin 0, 0) = (Fin 0, 2)"
    by (simp only: MCMCDemo_inner_Suc MCMCDemo_inner_0 ex_step_burnin)
  show ?thesis
    unfolding n z by (simp add: MCMCDemo_outer_Suc MCMCDemo_outer_0 i)
qed

lemma ex_record:
  "MCMCDemo ex_uniform (Fin 1) ex_phat ex_qpdf ex_qsample 1 1 2 = Inr ((Fin 2, [Fin 2]), 4)"
proof -
  have n: "nat 1 = Suc 0"
    by simp
  have z: "np_zeros (Suc 0) = [Fin 0]"
    by (simp add: np_zeros_def)
  have o: "MCMCDemo_outer ex_uniform ex_phat ex_qpdf ex_qsample (nat 1) (nat 1)
             (Fin 1, np_zeros (nat 1), 2) = (Fin 2, [Fin 2], 4)"
    unfolding n z by (simp add: MCMCDemo_outer_Suc MCMCDemo_outer_0 ex_inner_2)
  have m: "np_mean [Fin 2] = Fin 2"
    by (simp add: np_mean_def np_sum_def np_add_def np_div_def)
  show ?thesis
    unfolding MCMCDemo_def o by (simp add: m)
qed

text \<open>The rejection sampler: the accepted samples as a filter over the paired draws.\<close>

lemma take_idx_np_where:
  assumes len: "length t = length x"
  shows "take_idx x (np_where t) = map fst (filter snd (zip x t))"
proof -
  have z: "zip x t = map (\<lambda>i. (x ! i, t ! i)) [0..<length x]"
    using len by (intro nth_equalityI) simp_all
  show ?thesis
    unfolding z by (simp add: take_idx_def np_where_def filter_map o_def len)
qed

lemma filter_zip_map:
  "length x = length u \<Longrightarrow>
   map fst (filter snd (zip x (map2 (\<lambda>ui ri. F ui ri) u (map G x))))
   = map fst (filter (\<lambda>(xi, ui). F ui (G xi)) (zip x u))"
  by (induction x u rule: list_induct2) auto

lemma map2_map_same: "map2 f (map g x) (map h x) = map (\<lambda>xi. f (g xi) (h xi)) x"
  by (induction x) auto

lemma GammaUnnorm_array_Inr:
  "py_pow L b a = Inr c \<Longrightarrow>
   GammaUnnorm_array L x a b = Inr (map (\<lambda>xi. nan_to_num (GammaUnnorm_expr L c xi a b)) x)"
  by (simp add: GammaUnnorm_array_def)

lemma spec_rej_accept_Inr:
  "py_pow L b a = Inr c \<Longrightarrow>
   spec_rej_accept L a b qpdf k xi ui
   = np_lt (Fin ui) (np_div (nan_to_num (GammaUnnorm_expr L c xi a b)) (np_mul k (pdf qpdf xi)))"
  by (simp add: spec_rej_accept_def GammaUnnorm_def)

lemma rejSamplingDemo_accepted:
  assumes r: "rvs qpdf N g = (x, g1)" and us: "uniform_size N g1 = (u, g2)"
    and lx: "length x = N" and lu: "length u = N" and pw: "py_pow L b a = Inr c"
  shows "rejSamplingDemo L uniform_size a b qpdf k N g
         = Inr ((np_mean (map fst (filter (\<lambda>(xi, ui). spec_rej_accept L a b qpdf k xi ui) (zip x u))),
                 map fst (filter (\<lambda>(xi, ui). spec_rej_accept L a b qpdf k xi ui) (zip x u))), g2)"
proof -
  let ?H = "\<lambda>xi. nan_to_num (GammaUnnorm_expr L c xi a b)"
  let ?G = "\<lambda>xi. np_div (?H xi) (np_mul k (pdf qpdf xi))"
  let ?t = "map2 (\<lambda>ui ri. np_lt (Fin ui) ri) u
              (map2 np_div (map ?H x) (map (\<lambda>xi. np_mul k (pdf qpdf xi)) x))"
  have t: "?t = map2 (\<lambda>ui ri. np_lt (Fin ui) ri) u (map ?G x)"
    by (simp only: map2_map_same)
  have lt: "length ?t = length x"
    using lx lu by simp
  have "take_idx x (np_where ?t) = map fst (filter snd (zip x ?t))"
    using lt by (rule take_idx_np_where)
  also have "\<dots> = map fst (filter (\<lambda>(xi, ui). np_lt (Fin ui) (?G xi)) (zip x u))"
    unfolding t using lx lu by (simp only: filter_zip_map)
  also have "\<dots> = map fst (filter (\<lambda>(xi, ui). spec_rej_accept L a b qpdf k xi ui) (zip x u))"
    by (simp add: spec_rej_accept_Inr [OF pw])
  finally have acc: "take_idx x (np_where ?t)
      = map fst (filter (\<lambda>(xi, ui). spec_rej_accept L a b qpdf k xi ui) (zip x u))" .
  show ?thesis
    using acc by (simp add: rejSamplingDemo_def r us GammaUnnorm_array_Inr [OF pw] Let_def)
qed

lemma ex_rvs_2: "rvs ex_dist 2 0 = ([Fin 1, Fin 2], 2)"
proof -
  have "[0..<2] = [0, Suc 0]"
    by (simp add: numeral_2_eq_2)
  then show ?thesis
    by (simp add: ex_dist_def)
qed

lemma ex_uniform_size_2: "ex_uniform_size 2 2 = ([1 / 4, 3 / 4], 4)"
proof -
  have "[0..<2] = [0, Suc 0]"
    by (simp add: numeral_2_eq_2)
  then show ?thesis
    by (simp add: ex_uniform_size_def)
qed

lemma ex_py_pow: "py_pow ex_lib (Fin 0) (Fin 0) = Inr (Fin 1)"
  by (simp add: ex_lib_def)

lemma ex_GammaUnnorm_1: "GammaUnnorm ex_lib (Fin 1) (Fin 0) (Fin 0) = Inr (Fin 1)"
  by (simp add: GammaUnnorm_def GammaUnnorm_expr_def ex_lib_def np_mul_def np_div_def np_sub_def
      np_add_def signed_zero_def)

lemma ex_GammaUnnorm_2: "GammaUnnorm ex_lib (Fin 2) (Fin 0) (Fin 0) = Inr (Fin (1 / 2))"
  by (simp add: GammaUnnorm_def GammaUnnorm_expr_def ex_lib_def np_mul_def np_div_def np_sub_def
      np_add_def signed_zero_def)

lemma ex_pdf: "pdf ex_dist xi = Fin 1"
  by (simp add: ex_dist_def)












section \<open>Claims\<close>

text \<open>
  C1 (amended). When the target density at the current state is a zero and the uniform
  draw is in \<open>[0,1)\<close>, the raw ratio is NaN, \<open>+inf\<close> or \<open>-inf\<close>. \<^verbatim>\<open>np.nan_to_num\<close> turns
  NaN into 0 and \<open>-inf\<close> into the most negative float, and the candidate is rejected;
  it turns \<open>+inf\<close> into the largest float, and the candidate is accepted. So the
  candidate is accepted exactly when the raw ratio is \<open>+inf\<close>: a candidate of zero density
  is rejected, and a candidate is accepted when the current density is the positive zero,
  the numerator \<open>phat(candidate) * qpdf(current, candidate)\<close> is computed positive and
  \<open>qpdf(candidate, current)\<close> is positive and finite.
\<close>

theorem MCMCDemo_zero_density_current:
  assumes z: "is_zero (phat x)" and u0: "0 \<le> u" and u1: "u < 1"
  shows "(np_div (np_mul (phat xc) (qpdf x xc)) (np_mul (phat x) (qpdf xc x)) = NaN
          \<or> np_div (np_mul (phat xc) (qpdf x xc)) (np_mul (phat x) (qpdf xc x)) = PInf
          \<or> np_div (np_mul (phat xc) (qpdf x xc)) (np_mul (phat x) (qpdf xc x)) = NInf)
       \<and> (MCMCDemo_accept phat qpdf u x xc \<longleftrightarrow>
            np_div (np_mul (phat xc) (qpdf x xc)) (np_mul (phat x) (qpdf xc x)) = PInf)
       \<and> (is_zero (phat xc) \<longrightarrow> \<not> MCMCDemo_accept phat qpdf u x xc)
       \<and> (phat x = Fin 0 \<and> np_lt (Fin 0) (np_mul (phat xc) (qpdf x xc))
            \<and> np_lt (Fin 0) (qpdf xc x) \<and> \<not> is_inf (qpdf xc x) \<longrightarrow>
            MCMCDemo_accept phat qpdf u x xc)"
proof -
  let ?n = "np_mul (phat xc) (qpdf x xc)"
  let ?d = "np_mul (phat x) (qpdf xc x)"
  let ?raw = "np_div ?n ?d"
  have d: "is_zero ?d \<or> ?d = NaN"
    using z by (simp add: np_mul_zero_left)
  have raw: "?raw = NaN \<or> ?raw = PInf \<or> ?raw = NInf"
    using d by (rule np_div_special)
  have acc: "MCMCDemo_accept phat qpdf u x xc \<longleftrightarrow> ?raw = PInf"
    using raw accept_test_nan [OF u0] accept_test_ninf [OF u0] accept_test_pinf [OF u1]
    by (auto simp: MCMCDemo_accept_def MCMCDemo_ratio_def)
  have zc: "\<not> MCMCDemo_accept phat qpdf u x xc" if "is_zero (phat xc)"
  proof -
    have "is_zero ?n \<or> is_nan ?n"
      using that by (simp add: np_mul_zero_left)
    moreover have "is_zero ?d \<or> is_nan ?d"
      using d by auto
    ultimately have "?raw = NaN"
      by (rule np_div_degenerate)
    then show ?thesis
      using acc by simp
  qed
  have pc: "MCMCDemo_accept phat qpdf u x xc"
    if "phat x = Fin 0 \<and> np_lt (Fin 0) (np_mul (phat xc) (qpdf x xc))
        \<and> np_lt (Fin 0) (qpdf xc x) \<and> \<not> is_inf (qpdf xc x)"
  proof -
    have n: "np_lt (Fin 0) ?n"
      using that by simp
    have "?d = Fin 0"
      using that pos_class [of "qpdf xc x"] by (simp add: np_mul_zero_left signed_zero_def)
    then have "?raw = PInf"
      using pos_class [OF n] by (simp add: np_div_by_zero signed_inf_def)
    then show ?thesis
      using acc by simp
  qed
  show ?thesis
    using raw acc zc pc by blast
qed

theorem MCMCDemo_zero_density_current_witness:
  "is_zero (ex_phat (Fin 0)) \<and> (0::real) \<le> 1 / 4 \<and> (1 / 4 :: real) < 1
   \<and> ex_phat (Fin 0) = Fin 0
   \<and> np_lt (Fin 0) (np_mul (ex_phat (Fin 1)) (ex_qpdf (Fin 0) (Fin 1)))
   \<and> np_lt (Fin 0) (ex_qpdf (Fin 1) (Fin 0)) \<and> \<not> is_inf (ex_qpdf (Fin 1) (Fin 0))
   \<and> np_div (np_mul (ex_phat (Fin 1)) (ex_qpdf (Fin 0) (Fin 1)))
             (np_mul (ex_phat (Fin 0)) (ex_qpdf (Fin 1) (Fin 0))) = PInf
   \<and> MCMCDemo_accept ex_phat ex_qpdf (1 / 4) (Fin 0) (Fin 1)"
  using MCMCDemo_zero_density_current [of ex_phat "Fin 0" "1 / 4" "Fin 1" ex_qpdf]
  by (simp add: ex_phat_def ex_qpdf_def np_lt_def np_mul_def np_div_def signed_zero_def signed_inf_def)

text \<open>
  C1 as stated fails: from the zero-density state 0 the candidate 1 of density 1 has
  ratio \<open>1/0 = +inf\<close>, which becomes the largest float, and the chain moves to 1.
\<close>

theorem MCMCDemo_zero_density_counterexample:
  "is_zero (ex_phat (Fin 0))
   \<and> MCMCDemo_ratio ex_phat ex_qpdf (Fin 0) (Fin 1) = Fin float_max
   \<and> MCMCDemo_accept ex_phat ex_qpdf (3 / 4) (Fin 0) (Fin 1)
   \<and> MCMCDemo_step ex_uniform ex_phat ex_qpdf ex_qsample (Fin 0, 2) = (Fin 1, 4)"
proof -
  have z: "is_zero (ex_phat (Fin 0))"
    by (simp add: ex_phat_def np_lt_def)
  have r: "MCMCDemo_ratio ex_phat ex_qpdf (Fin 0) (Fin 1) = Fin float_max"
    by (simp add: MCMCDemo_ratio_def ex_phat_def ex_qpdf_def np_lt_def np_mul_def np_div_def
        signed_zero_def signed_inf_def)
  have a: "MCMCDemo_accept ex_phat ex_qpdf (3 / 4) (Fin 0) (Fin 1)"
    by (simp add: MCMCDemo_accept_def r np_lt_def py_min_def)
  have u: "ex_uniform 2 = (3 / 4, 3)"
    by (simp add: ex_uniform_def)
  have q: "ex_qsample (Fin 0) 3 = (Fin 1, 4)"
    by (simp add: ex_qsample_def np_add_def)
  have s: "MCMCDemo_step ex_uniform ex_phat ex_qpdf ex_qsample (Fin 0, 2) = (Fin 1, 4)"
    by (simp add: MCMCDemo_step_def u q a)
  show ?thesis
    using z r a s by simp
qed

text \<open>
  C2. The argument of \<^verbatim>\<open>min(1, \<dots>)\<close> in \<open>MCMCDemo\<close> is never NaN; when the target
  density is a zero at both the current and the candidate state the raw ratio is NaN, the
  computed ratio is exactly 0 and the candidate is rejected for every uniform draw
  \<open>u \<ge> 0\<close>; a value returned by \<open>GammaUnnorm\<close> is never NaN, and it is 0 whenever the
  unguarded expression is NaN.
\<close>

theorem MCMCDemo_ratio_never_nan:
  "\<not> is_nan (MCMCDemo_ratio phat qpdf x xc)
   \<and> (is_zero (phat x) \<and> is_zero (phat xc) \<longrightarrow>
        np_div (np_mul (phat xc) (qpdf x xc)) (np_mul (phat x) (qpdf xc x)) = NaN
        \<and> MCMCDemo_ratio phat qpdf x xc = Fin 0
        \<and> (0 \<le> u \<longrightarrow> \<not> MCMCDemo_accept phat qpdf u x xc))
   \<and> (GammaUnnorm L y a b = Inr v \<longrightarrow> \<not> is_nan v)
   \<and> (py_pow L b a = Inr c \<and> is_nan (GammaUnnorm_expr L c y a b) \<longrightarrow>
        GammaUnnorm L y a b = Inr (Fin 0))"
proof (intro conjI impI)
  show "\<not> is_nan (MCMCDemo_ratio phat qpdf x xc)"
    by (simp add: MCMCDemo_ratio_def nan_to_num_not_nan)
next
  assume z: "is_zero (phat x) \<and> is_zero (phat xc)"
  have n: "is_zero (np_mul (phat xc) (qpdf x xc)) \<or> is_nan (np_mul (phat xc) (qpdf x xc))"
    using z by (simp add: np_mul_zero_left)
  have d: "is_zero (np_mul (phat x) (qpdf xc x)) \<or> is_nan (np_mul (phat x) (qpdf xc x))"
    using z by (simp add: np_mul_zero_left)
  show raw: "np_div (np_mul (phat xc) (qpdf x xc)) (np_mul (phat x) (qpdf xc x)) = NaN"
    using n d by (rule np_div_degenerate)
  show "MCMCDemo_ratio phat qpdf x xc = Fin 0"
    by (simp add: MCMCDemo_ratio_def raw)
  assume "0 \<le> u"
  then show "\<not> MCMCDemo_accept phat qpdf u x xc"
    by (simp add: MCMCDemo_accept_def MCMCDemo_ratio_def raw np_lt_def py_min_def)
next
  assume "GammaUnnorm L y a b = Inr v"
  then show "\<not> is_nan v"
    by (auto simp: GammaUnnorm_def nan_to_num_not_nan split: sum.splits)
next
  assume "py_pow L b a = Inr c \<and> is_nan (GammaUnnorm_expr L c y a b)"
  then show "GammaUnnorm L y a b = Inr (Fin 0)"
    by (cases "GammaUnnorm_expr L c y a b") (simp_all add: GammaUnnorm_def)
qed

theorem MCMCDemo_ratio_never_nan_witness:
  "is_zero (ex_phat (Fin 0)) \<and> is_zero (ex_phat (Fin (- 1))) \<and> (0::real) \<le> 1 / 4
   \<and> GammaUnnorm ex_lib NaN (Fin 0) (Fin 0) = Inr (Fin 0)
   \<and> py_pow ex_lib (Fin 0) (Fin 0) = Inr (Fin 1)
   \<and> is_nan (GammaUnnorm_expr ex_lib (Fin 1) NaN (Fin 0) (Fin 0))
   \<and> \<not> is_nan (MCMCDemo_ratio ex_phat ex_qpdf (Fin 0) (Fin (- 1)))
   \<and> MCMCDemo_ratio ex_phat ex_qpdf (Fin 0) (Fin (- 1)) = Fin 0
   \<and> \<not> MCMCDemo_accept ex_phat ex_qpdf (1 / 4) (Fin 0) (Fin (- 1))
   \<and> \<not> is_nan (Fin 0)"
  using MCMCDemo_ratio_never_nan [of ex_phat ex_qpdf "Fin 0" "Fin (- 1)" "1 / 4" ex_lib NaN "Fin 0" "Fin 0"
      "Fin 0" "Fin 1"]
  by (simp add: ex_phat_def ex_lib_def np_lt_def GammaUnnorm_def GammaUnnorm_expr_def np_mul_def np_div_def)

text \<open>
  C3. With uniform draws in \<open>[0,1)\<close> and \<open>N \<ge> 0\<close>, \<open>MCMCDemo\<close> returns exactly what the
  sampler of the specification returns: the same recorded sequence, the same mean and the
  same generator. The source applies \<^verbatim>\<open>np.nan_to_num\<close>, which also replaces the
  infinities, and Python's \<^verbatim>\<open>min\<close>; the specification only reads NaN as 0 and takes the
  minimum of extended reals; the acceptance tests agree for every draw \<open>u \<ge> 0\<close>.
\<close>

theorem MCMCDemo_refines_spec:
  assumes u: "\<forall>g. 0 \<le> fst (uniform g) \<and> fst (uniform g) < 1" and n: "0 \<le> N"
  shows "MCMCDemo uniform x0 phat qpdf qsample N T g
         = (case spec_MH uniform x0 phat qpdf qsample (nat N) (nat T) g of
              ((recorded, mean), g') \<Rightarrow> Inr ((mean, recorded), g'))"
proof -
  have u': "\<forall>g. 0 \<le> fst (uniform g)"
    using u by simp
  obtain recorded s where sl:
    "spec_slots uniform phat qpdf qsample (nat N) (nat T) (x0, g) = (recorded, s)"
    by (cases "spec_slots uniform phat qpdf qsample (nat N) (nat T) (x0, g)")
  have "MCMCDemo_outer uniform phat qpdf qsample (nat N) (nat T) (x0, np_zeros (nat N), g)
        = (fst s, recorded @ drop (nat N) (np_zeros (nat N)), snd s)"
    using MCMCDemo_outer_spec [OF u', of "nat N" "np_zeros (nat N)" phat qpdf qsample "nat T" x0 g] sl
    by (simp add: np_zeros_def)
  then have o: "MCMCDemo_outer uniform phat qpdf qsample (nat N) (nat T) (x0, np_zeros (nat N), g)
        = (fst s, recorded, snd s)"
    by (simp add: np_zeros_def)
  show ?thesis
    using n by (simp add: MCMCDemo_def o spec_MH_def sl np_mean_def)
qed

theorem MCMCDemo_refines_spec_witness:
  "(\<forall>g. 0 \<le> fst (ex_uniform g) \<and> fst (ex_uniform g) < 1) \<and> (0::int) \<le> 2
   \<and> MCMCDemo ex_uniform (Fin 1) ex_phat ex_qpdf ex_qsample 2 1 0
       = Inr ((Fin (3 / 2), [Fin 1, Fin 2]), 4)
   \<and> spec_MH ex_uniform (Fin 1) ex_phat ex_qpdf ex_qsample 2 1 0
       = (([Fin 1, Fin 2], Fin (3 / 2)), 4)"
proof -
  have u: "\<forall>g. 0 \<le> fst (ex_uniform g) \<and> fst (ex_uniform g) < 1"
    by (simp add: ex_uniform_def)
  have n: "(0::int) \<le> 2"
    by simp
  have "MCMCDemo ex_uniform (Fin 1) ex_phat ex_qpdf ex_qsample 2 1 0
        = (case spec_MH ex_uniform (Fin 1) ex_phat ex_qpdf ex_qsample (nat 2) (nat 1) 0 of
             ((recorded, mean), g') \<Rightarrow> Inr ((mean, recorded), g'))"
    using MCMCDemo_refines_spec [where uniform = ex_uniform and N = 2 and ?x0.0 = "Fin 1"
        and phat = ex_phat and qpdf = ex_qpdf and qsample = ex_qsample and T = 1 and g = 0] u n
    by blast
  then have "(case spec_MH ex_uniform (Fin 1) ex_phat ex_qpdf ex_qsample (nat 2) (nat 1) 0 of
               ((recorded, mean), g') \<Rightarrow> Inr ((mean, recorded), g'))
             = (Inr ((Fin (3 / 2), [Fin 1, Fin 2]), 4) :: error + ((npfloat \<times> npfloat list) \<times> nat))"
    unfolding ex_run by simp
  then have "spec_MH ex_uniform (Fin 1) ex_phat ex_qpdf ex_qsample 2 1 0
             = (([Fin 1, Fin 2], Fin (3 / 2)), 4)"
    by (auto split: prod.splits)
  then show ?thesis
    using u n ex_run by blast
qed

text \<open>
  C4. For every initial state, target density, proposal density and proposal sampler,
  every sample count \<open>N \<ge> 0\<close> and every thinning interval \<open>T\<close> (in particular every
  \<open>T \<ge> 1\<close>), \<open>MCMCDemo\<close> returns, and the returned sequence has exactly \<open>N\<close> entries.
\<close>

theorem MCMCDemo_length:
  "0 \<le> N \<Longrightarrow>
   \<exists>m xs g'. MCMCDemo uniform x phat qpdf qsample N T g = Inr ((m, xs), g')
             \<and> int (length xs) = N"
proof -
  assume n: "0 \<le> N"
  obtain x' xs g' where r:
    "MCMCDemo_outer uniform phat qpdf qsample (nat N) (nat T) (x, np_zeros (nat N), g) = (x', xs, g')"
    by (metis prod_cases3)
  have "length xs = nat N"
    using MCMCDemo_outer_length [of uniform phat qpdf qsample "nat N" "nat T" x "np_zeros (nat N)" g] r
    by (simp add: np_zeros_def)
  then show ?thesis
    using n r by (simp add: MCMCDemo_def)
qed

theorem MCMCDemo_length_witness:
  "(0::int) \<le> 3
   \<and> (\<exists>m xs g'. MCMCDemo ex_uniform (Fin 1) ex_phat ex_qpdf ex_qsample 3 2 0 = Inr ((m, xs), g')
                   \<and> int (length xs) = 3)"
  using MCMCDemo_length [of 3 ex_uniform "Fin 1" ex_phat ex_qpdf ex_qsample 2 0]
  by simp




text \<open>
  C7. Given the \<open>N\<close> proposal draws \<open>x\<close> and the \<open>N\<close> uniform draws \<open>u\<close>,
  \<open>rejSamplingDemo\<close> returns the samples \<open>x\<^sub>i\<close> for which \<open>u\<^sub>i\<close> is strictly below the
  unnormalised target density at \<open>x\<^sub>i\<close> divided by \<open>k\<close> times the proposal density at \<open>x\<^sub>i\<close>,
  each as often as it was drawn and in the order drawn, together with their mean.
\<close>

theorem rejSamplingDemo_accepts:
  assumes r: "rvs qpdf N g = (x, g1)" and us: "uniform_size N g1 = (u, g2)"
    and lx: "length x = N" and lu: "length u = N" and pw: "py_pow L b a = Inr c"
  shows "rejSamplingDemo L uniform_size a b qpdf k N g
         = Inr ((np_mean (map fst (filter (\<lambda>(xi, ui). spec_rej_accept L a b qpdf k xi ui) (zip x u))),
                 map fst (filter (\<lambda>(xi, ui). spec_rej_accept L a b qpdf k xi ui) (zip x u))), g2)
       \<and> (\<forall>xi ui. spec_rej_accept L a b qpdf k xi ui
            = (\<exists>d. GammaUnnorm L xi a b = Inr d \<and> np_lt (Fin ui) (np_div d (np_mul k (pdf qpdf xi)))))"
  using rejSamplingDemo_accepted [where qpdf = qpdf and N = N and g = g and x = x and ?g1.0 = g1
      and uniform_size = uniform_size and u = u and ?g2.0 = g2 and L = L and b = b and a = a
      and c = c and k = k] r us lx lu pw
  by (auto simp: spec_rej_accept_def split: sum.splits)

theorem rejSamplingDemo_accepts_witness:
  "rvs ex_dist 2 0 = ([Fin 1, Fin 2], 2) \<and> ex_uniform_size 2 2 = ([1 / 4, 3 / 4], 4)
   \<and> length [Fin 1, Fin 2] = 2 \<and> length [1 / 4, 3 / 4 :: real] = 2
   \<and> py_pow ex_lib (Fin 0) (Fin 0) = Inr (Fin 1)
   \<and> spec_rej_accept ex_lib (Fin 0) (Fin 0) ex_dist (Fin 2) (Fin 1) (1 / 4)
   \<and> \<not> spec_rej_accept ex_lib (Fin 0) (Fin 0) ex_dist (Fin 2) (Fin 2) (3 / 4)
   \<and> rejSamplingDemo ex_lib ex_uniform_size (Fin 0) (Fin 0) ex_dist (Fin 2) 2 0
       = Inr ((Fin 1, [Fin 1]), 4)"
proof -
  have l: "length [Fin 1, Fin 2] = 2" "length [1 / 4, 3 / 4 :: real] = 2"
    by simp_all
  have a1: "spec_rej_accept ex_lib (Fin 0) (Fin 0) ex_dist (Fin 2) (Fin 1) (1 / 4)"
    by (simp add: spec_rej_accept_def ex_GammaUnnorm_1 ex_pdf np_mul_def np_div_def np_lt_def)
  have a2: "\<not> spec_rej_accept ex_lib (Fin 0) (Fin 0) ex_dist (Fin 2) (Fin 2) (3 / 4)"
    by (simp add: spec_rej_accept_def ex_GammaUnnorm_2 ex_pdf np_mul_def np_div_def np_lt_def)
  have m: "np_mean [Fin 1] = Fin 1"
    by (simp add: np_mean_def np_sum_def np_add_def np_div_def)
  have "rejSamplingDemo ex_lib ex_uniform_size (Fin 0) (Fin 0) ex_dist (Fin 2) 2 0
        = Inr ((Fin 1, [Fin 1]), 4)"
    using rejSamplingDemo_accepts [where qpdf = ex_dist and N = 2 and g = 0 and x = "[Fin 1, Fin 2]"
        and ?g1.0 = 2 and uniform_size = ex_uniform_size and u = "[1 / 4, 3 / 4]" and ?g2.0 = 4
        and L = ex_lib and b = "Fin 0" and a = "Fin 0" and c = "Fin 1" and k = "Fin 2"]
      ex_rvs_2 ex_uniform_size_2 l ex_py_pow
    by (simp add: a1 a2 m)
  then show ?thesis
    using ex_rvs_2 ex_uniform_size_2 l ex_py_pow a1 a2 by simp
qed

text \<open>
  C8. In the burn-in-then-record usage the recording call is \<open>MCMCDemo\<close> started at the
  caller's \<open>x\<close> with the generator the burn-in left behind: whatever final state \<open>xb\<close> (and
  samples \<open>xsb\<close>) the burn-in chain reached, they do not enter the result.
\<close>

theorem burnin_state_not_chained:
  assumes n: "0 \<le> Nburnin"
    and b: "MCMCDemo_outer uniform phat qpdf qsample (nat Nburnin) (nat 1)
              (Fin 0, np_zeros (nat Nburnin), g) = (xb, xsb, g1)"
  shows "burnin_then_sample uniform phat qpdf qsample x N Nburnin T g
         = MCMCDemo uniform x phat qpdf qsample N T g1"
  using n b by (simp add: burnin_then_sample_def MCMCDemo_def)

theorem burnin_state_not_chained_witness:
  "(0::int) \<le> 1
   \<and> MCMCDemo_outer ex_uniform ex_phat ex_qpdf ex_qsample (nat 1) (nat 1)
        (Fin 0, np_zeros (nat 1), 0) = (Fin 0, [Fin 0], 2)
   \<and> burnin_then_sample ex_uniform ex_phat ex_qpdf ex_qsample (Fin 1) 1 1 1 0
       = Inr ((Fin 2, [Fin 2]), 4)"
proof -
  have n: "(0::int) \<le> 1"
    by simp
  have "burnin_then_sample ex_uniform ex_phat ex_qpdf ex_qsample (Fin 1) 1 1 1 0
        = MCMCDemo ex_uniform (Fin 1) ex_phat ex_qpdf ex_qsample 1 1 2"
    by (rule burnin_state_not_chained [OF n ex_burnin])
  then show ?thesis
    using n ex_burnin ex_record by simp
qed

text \<open>
  C9. If the uniform draws are in \<open>[0,1)\<close>, the proposal density is positive at every
  pair of states and the target density is positive at the initial state, then the
  target density is positive at every recorded sample and at every state of the chain
  (the state reached after any number \<open>i\<close> of completed output slots followed by any
  number \<open>t\<close> of further steps); and for a candidate whose target density is a zero the
  computed ratio is a zero and the candidate is never accepted, whatever the current
  state.
\<close>

theorem MCMCDemo_positive_density:
  assumes u: "\<forall>g. 0 \<le> fst (uniform g) \<and> fst (uniform g) < 1"
    and q: "\<forall>a b. np_lt (Fin 0) (qpdf a b)"
    and x: "np_lt (Fin 0) (phat x0)"
    and n: "0 \<le> N"
  shows "\<exists>m xs g'. MCMCDemo uniform x0 phat qpdf qsample N T g = Inr ((m, xs), g')
           \<and> (\<forall>s\<in>set xs. np_lt (Fin 0) (phat s))
           \<and> (\<forall>i t. np_lt (Fin 0) (phat (fst (MCMCDemo_inner uniform phat qpdf qsample t
                  (case MCMCDemo_outer uniform phat qpdf qsample i (nat T) (x0, np_zeros (nat N), g)
                   of (x', zs', g') \<Rightarrow> (x', g'))))))
           \<and> (\<forall>v x xc. 0 \<le> v \<and> is_zero (phat xc) \<longrightarrow>
                  is_zero (MCMCDemo_ratio phat qpdf x xc) \<and> \<not> MCMCDemo_accept phat qpdf v x xc)"
proof -
  have u': "\<forall>g. 0 \<le> fst (uniform g)"
    using u by simp
  obtain x' xs g' where r:
    "MCMCDemo_outer uniform phat qpdf qsample (nat N) (nat T) (x0, np_zeros (nat N), g) = (x', xs, g')"
    by (metis prod_cases3)
  have inv: "np_lt (Fin 0) (phat x') \<and> length xs = length (np_zeros (nat N))
             \<and> (\<forall>i<nat N. np_lt (Fin 0) (phat (xs ! i)))"
    by (rule MCMCDemo_outer_pos [OF u' q x _ r]) (simp add: np_zeros_def)
  have rec: "\<forall>s\<in>set xs. np_lt (Fin 0) (phat s)"
    using inv by (auto simp: in_set_conv_nth np_zeros_def)
  have mid: "np_lt (Fin 0) (phat (fst (MCMCDemo_inner uniform phat qpdf qsample t
                (case MCMCDemo_outer uniform phat qpdf qsample i (nat T) (x0, np_zeros (nat N), g)
                 of (x', zs', g') \<Rightarrow> (x', g')))))" for i t
  proof -
    obtain x1 zs1 g1 where o:
      "MCMCDemo_outer uniform phat qpdf qsample i (nat T) (x0, np_zeros (nat N), g) = (x1, zs1, g1)"
      by (metis prod_cases3)
    have "np_lt (Fin 0) (phat x1)"
      using MCMCDemo_outer_pos_state [where uniform = uniform and qpdf = qpdf and phat = phat
          and x = x0 and qsample = qsample and n = i and T = "nat T" and zs = "np_zeros (nat N)"
          and g = g] u' q x o
      by simp
    then show ?thesis
      using MCMCDemo_inner_pos [OF u' q, of phat "(x1, g1)" qsample t] o by simp
  qed
  have rej: "\<forall>v x xc. 0 \<le> v \<and> is_zero (phat xc) \<longrightarrow>
               is_zero (MCMCDemo_ratio phat qpdf x xc) \<and> \<not> MCMCDemo_accept phat qpdf v x xc"
    by (simp add: zero_candidate_rejected zero_candidate_ratio)
  have "MCMCDemo uniform x0 phat qpdf qsample N T g = Inr ((np_mean xs, xs), g')"
    using n r by (simp add: MCMCDemo_def)
  then show ?thesis
    using rec mid rej by blast
qed

theorem MCMCDemo_positive_density_witness:
  "(\<forall>g. 0 \<le> fst (ex_uniform g) \<and> fst (ex_uniform g) < 1)
   \<and> (\<forall>a b. np_lt (Fin 0) (ex_qpdf a b))
   \<and> np_lt (Fin 0) (ex_phat (Fin 1))
   \<and> (0::int) \<le> 2
   \<and> MCMCDemo ex_uniform (Fin 1) ex_phat ex_qpdf ex_qsample 2 1 0
       = Inr ((Fin (3 / 2), [Fin 1, Fin 2]), 4)
   \<and> np_lt (Fin 0) (ex_phat (Fin 1)) \<and> np_lt (Fin 0) (ex_phat (Fin 2))"
proof -
  have u: "\<forall>g. 0 \<le> fst (ex_uniform g) \<and> fst (ex_uniform g) < 1"
    by (simp add: ex_uniform_def)
  have q: "\<forall>a b. np_lt (Fin 0) (ex_qpdf a b)"
    by (simp add: ex_qpdf_def np_lt_def)
  have x: "np_lt (Fin 0) (ex_phat (Fin 1))"
    by (simp add: ex_phat_def np_lt_def)
  have n: "(0::int) \<le> 2"
    by simp
  have "\<exists>m xs g'. MCMCDemo ex_uniform (Fin 1) ex_phat ex_qpdf ex_qsample 2 1 0 = Inr ((m, xs), g')
          \<and> (\<forall>s\<in>set xs. np_lt (Fin 0) (ex_phat s))"
    using MCMCDemo_positive_density [where uniform = ex_uniform and qpdf = ex_qpdf
        and phat = ex_phat and ?x0.0 = "Fin 1" and N = 2 and qsample = ex_qsample and T = 1 and g = 0]
      u q x n
    by blast
  then have "\<forall>s\<in>set [Fin 1, Fin 2]. np_lt (Fin 0) (ex_phat s)"
    unfolding ex_run by blast
  then have "np_lt (Fin 0) (ex_phat (Fin 1)) \<and> np_lt (Fin 0) (ex_phat (Fin 2))"
    by simp
  then show ?thesis
    using u q x n ex_run by blast
qed

text \<open>
  C10. If the test rejects every one of the \<open>N\<close> samples, \<open>rejSamplingDemo\<close> returns
  normally, with an empty array of accepted samples and NaN, the mean of an empty array,
  as the estimate.
\<close>

theorem rejSamplingDemo_all_rejected:
  assumes r: "rvs qpdf N g = (x, g1)" and us: "uniform_size N g1 = (u, g2)"
    and lx: "length x = N" and lu: "length u = N" and pw: "py_pow L b a = Inr c"
    and rej: "\<forall>i<N. \<not> spec_rej_accept L a b qpdf k (x ! i) (u ! i)"
  shows "rejSamplingDemo L uniform_size a b qpdf k N g = Inr ((NaN, []), g2)"
proof -
  have "\<forall>p\<in>set (zip x u). \<not> (case p of (xi, ui) \<Rightarrow> spec_rej_accept L a b qpdf k xi ui)"
    using rej lx lu by (auto simp: set_zip)
  then have e: "filter (\<lambda>(xi, ui). spec_rej_accept L a b qpdf k xi ui) (zip x u) = []"
    by (simp add: filter_empty_conv)
  have m: "np_mean [] = NaN"
    by (simp add: np_mean_def np_sum_def np_div_def)
  show ?thesis
    using rejSamplingDemo_accepted [where qpdf = qpdf and N = N and g = g and x = x and ?g1.0 = g1
      and uniform_size = uniform_size and u = u and ?g2.0 = g2 and L = L and b = b and a = a
      and c = c and k = k] r us lx lu pw
    by (simp add: e m)
qed

theorem rejSamplingDemo_all_rejected_witness:
  "rvs ex_dist 2 0 = ([Fin 1, Fin 2], 2) \<and> ex_uniform_size 2 2 = ([1 / 4, 3 / 4], 4)
   \<and> length [Fin 1, Fin 2] = 2 \<and> length [1 / 4, 3 / 4 :: real] = 2
   \<and> py_pow ex_lib (Fin 0) (Fin 0) = Inr (Fin 1)
   \<and> \<not> spec_rej_accept ex_lib (Fin 0) (Fin 0) ex_dist (Fin 8) (Fin 1) (1 / 4)
   \<and> \<not> spec_rej_accept ex_lib (Fin 0) (Fin 0) ex_dist (Fin 8) (Fin 2) (3 / 4)
   \<and> rejSamplingDemo ex_lib ex_uniform_size (Fin 0) (Fin 0) ex_dist (Fin 8) 2 0
       = Inr ((NaN, []), 4)"
proof -
  have l: "length [Fin 1, Fin 2] = 2" "length [1 / 4, 3 / 4 :: real] = 2"
    by simp_all
  have a1: "\<not> spec_rej_accept ex_lib (Fin 0) (Fin 0) ex_dist (Fin 8) (Fin 1) (1 / 4)"
    by (simp add: spec_rej_accept_def ex_GammaUnnorm_1 ex_pdf np_mul_def np_div_def np_lt_def)
  have a2: "\<not> spec_rej_accept ex_lib (Fin 0) (Fin 0) ex_dist (Fin 8) (Fin 2) (3 / 4)"
    by (simp add: spec_rej_accept_def ex_GammaUnnorm_2 ex_pdf np_mul_def np_div_def np_lt_def)
  have rej: "\<forall>i<2. \<not> spec_rej_accept ex_lib (Fin 0) (Fin 0) ex_dist (Fin 8)
                  ([Fin 1, Fin 2] ! i) ([1 / 4, 3 / 4] ! i)"
    using a1 a2 by (simp add: less_Suc_eq numeral_2_eq_2)
  have "rejSamplingDemo ex_lib ex_uniform_size (Fin 0) (Fin 0) ex_dist (Fin 8) 2 0
        = Inr ((NaN, []), 4)"
    using rejSamplingDemo_all_rejected [where qpdf = ex_dist and N = 2 and g = 0
        and x = "[Fin 1, Fin 2]" and ?g1.0 = 2 and uniform_size = ex_uniform_size
        and u = "[1 / 4, 3 / 4]" and ?g2.0 = 4 and L = ex_lib and b = "Fin 0" and a = "Fin 0"
        and c = "Fin 1" and k = "Fin 8"]
      ex_rvs_2 ex_uniform_size_2 l ex_py_pow rej
    by blast
  then show ?thesis
    using ex_rvs_2 ex_uniform_size_2 l ex_py_pow a1 a2 by blast
qed

end
